theory Spec2Isabelle
  imports Complex_Main "HOL-Library.Word"
begin

unbundle bit_operations_syntax

section \<open>The octomap server: data model\<close>

text \<open>
  The embedding follows \<^verbatim>\<open>octomap_server.cpp\<close>. A C++ \<^verbatim>\<open>double\<close> is modelled by a
  \<^typ>\<open>real\<close>: the arithmetic of the source without rounding, infinities and NaN. Where a
  double operation of the source leaves the finite numbers (a division by zero, the
  logarithm of a number that is not positive), the model stops with the outcome
  \<open>NonFiniteDouble\<close> instead of continuing with a value that HOL would invent.
  A C++ \<^verbatim>\<open>int\<close> that holds a level index or a hue sector is an \<^typ>\<open>int\<close>: both are
  far inside the 32-bit range for every double input. The \<^verbatim>\<open>assert\<close> of \<^verbatim>\<open>readMap\<close> is
  modelled as compiled in (no \<^verbatim>\<open>NDEBUG\<close>): a failed assertion ends the run.

  The selectors of \<^verbatim>\<open>std_msgs::ColorRGBA\<close> (\<^verbatim>\<open>r g b a\<close>) and of
  \<^verbatim>\<open>geometry_msgs::Point\<close> (\<^verbatim>\<open>x y z\<close>) carry a prefix, since one-letter record
  fields would capture the variables of every statement below.
\<close>

record ColorRGBA =
  col_r :: real
  col_g :: real
  col_b :: real
  col_a :: real

section \<open>\<^verbatim>\<open>OctomapServer::heightMapColor\<close>\<close>

text \<open>
  The \<^verbatim>\<open>switch (i)\<close> of \<^verbatim>\<open>heightMapColor\<close>, with \<^verbatim>\<open>color.a = 1.0\<close> set before it.
  \<^verbatim>\<open>case 6\<close> falls through to \<^verbatim>\<open>case 0\<close>.
\<close>

definition colorSwitch :: "int \<Rightarrow> real \<Rightarrow> real \<Rightarrow> real \<Rightarrow> ColorRGBA" where
  "colorSwitch i v n m =
     (if i = 6 \<or> i = 0 then \<lparr>col_r = v, col_g = n, col_b = m, col_a = 1\<rparr>
      else if i = 1 then \<lparr>col_r = n, col_g = v, col_b = m, col_a = 1\<rparr>
      else if i = 2 then \<lparr>col_r = m, col_g = v, col_b = n, col_a = 1\<rparr>
      else if i = 3 then \<lparr>col_r = m, col_g = n, col_b = v, col_a = 1\<rparr>
      else if i = 4 then \<lparr>col_r = n, col_g = m, col_b = v, col_a = 1\<rparr>
      else if i = 5 then \<lparr>col_r = v, col_g = m, col_b = n, col_a = 1\<rparr>
      else \<lparr>col_r = 1, col_g = 1/2, col_b = 1/2, col_a = 1\<rparr>)"

text \<open>
  The body of \<^verbatim>\<open>heightMapColor\<close>, one binding per assignment of the source:
  \<^verbatim>\<open>h -= floor(h); h *= 6; i = floor(h); f = h - i; if (!(i & 1)) f = 1 - f;\<close>
  \<^verbatim>\<open>m = v * (1 - s); n = v * (1 - s * f);\<close> with \<^verbatim>\<open>s = 1.0\<close> and \<^verbatim>\<open>v = 1.0\<close>.
\<close>

definition heightMapColor :: "real \<Rightarrow> ColorRGBA" where
  "heightMapColor h0 =
     (let s = (1::real);
          v = (1::real);
          h1 = h0 - of_int \<lfloor>h0\<rfloor>;
          h = h1 * 6;
          i = \<lfloor>h\<rfloor>;
          f0 = h - of_int i;
          f = (if i AND 1 = 0 then 1 - f0 else f0);
          m = v * (1 - s);
          n = v * (1 - s * f)
      in colorSwitch i v n m)"

subsection \<open>The colour mapping as the specification words it\<close>

text \<open>
  The sector table of the specification: sector 0/6: (1,n,m); 1: (n,1,m); 2: (m,1,n);
  3: (m,n,1); 4: (n,m,1); 5: (1,m,n); alpha 1; the fallback (1, 0.5, 0.5, 1) otherwise.
\<close>

definition sectorTable_spec :: "int \<Rightarrow> real \<Rightarrow> real \<Rightarrow> ColorRGBA" where
  "sectorTable_spec i n m =
     (if i = 0 \<or> i = 6 then \<lparr>col_r = 1, col_g = n, col_b = m, col_a = 1\<rparr>
      else if i = 1 then \<lparr>col_r = n, col_g = 1, col_b = m, col_a = 1\<rparr>
      else if i = 2 then \<lparr>col_r = m, col_g = 1, col_b = n, col_a = 1\<rparr>
      else if i = 3 then \<lparr>col_r = m, col_g = n, col_b = 1, col_a = 1\<rparr>
      else if i = 4 then \<lparr>col_r = n, col_g = m, col_b = 1, col_a = 1\<rparr>
      else if i = 5 then \<lparr>col_r = 1, col_g = m, col_b = n, col_a = 1\<rparr>
      else \<lparr>col_r = 1, col_g = 1/2, col_b = 1/2, col_a = 1\<rparr>)"

text \<open>
  \<open>colorForHeight\<close> in the words of the specification: wrap by subtracting the floor,
  sector \<open>i = floor (h * 6)\<close>, fraction \<open>f = h * 6 - i\<close>, inverted when \<open>i\<close> is even,
  \<open>m = 0\<close>, \<open>n = 1 - f\<close>, then the sector table.
\<close>

definition colorForHeight_spec :: "real \<Rightarrow> ColorRGBA" where
  "colorForHeight_spec h0 =
     (let h = h0 - of_int \<lfloor>h0\<rfloor>;
          i = \<lfloor>h * 6\<rfloor>;
          f = h * 6 - of_int i;
          f' = (if even i then 1 - f else f);
          m = 0;
          n = 1 - f'
      in sectorTable_spec i n m)"

section \<open>Messages, the map and the server\<close>

text \<open>
  \<^verbatim>\<open>geometry_msgs::Point\<close> and \<^verbatim>\<open>octomap::point3d\<close> are both three coordinates; an
  \<^verbatim>\<open>octomap::OcTreeVolume\<close> is the pair of a voxel's centre and its edge length.
\<close>

record Point =
  pt_x :: real
  pt_y :: real
  pt_z :: real

type_synonym OcTreeVolume = "Point \<times> real"

text \<open>
  The fields of \<^verbatim>\<open>visualization_msgs::Marker\<close> that \<^verbatim>\<open>readMap\<close> writes. \<^verbatim>\<open>id\<close> and
  \<^verbatim>\<open>type\<close> are renamed (\<open>id\<close> is the identity of HOL). The wall-clock
  \<^verbatim>\<open>header.stamp\<close> is left out. A value-initialised message has all numbers zero, which
  is the shape \<^verbatim>\<open>ARROW\<close> and the action \<^verbatim>\<open>ADD\<close>, and empty strings and arrays.
\<close>

datatype marker_shape = ARROW | CUBE_LIST

datatype marker_action = ADD | DELETE

record Marker =
  frame_id :: string
  ns :: string
  marker_id :: int
  marker_type :: marker_shape
  action :: marker_action
  scale_x :: real
  scale_y :: real
  scale_z :: real
  color :: ColorRGBA
  points :: "Point list"
  colors :: "ColorRGBA list"

definition Marker_default :: Marker where
  "Marker_default =
     \<lparr>frame_id = [], ns = [], marker_id = 0, marker_type = ARROW, action = ADD,
      scale_x = 0, scale_y = 0, scale_z = 0,
      color = \<lparr>col_r = 0, col_g = 0, col_b = 0, col_a = 0\<rparr>,
      points = [], colors = []\<rparr>"

text \<open>
  What \<^verbatim>\<open>readMap\<close> asks of the \<^verbatim>\<open>octomap::OcTree\<close> it loads: \<^verbatim>\<open>getResolution\<close>,
  \<^verbatim>\<open>getMetricMin\<close>, \<^verbatim>\<open>getMetricMax\<close> and \<^verbatim>\<open>getOccupied\<close>. The file parser and the
  binary message (\<^verbatim>\<open>octomapMapToMsg\<close>) are outside the model.
\<close>

record OcTree =
  resolution :: real
  metricMin :: Point
  metricMax :: Point
  occupied :: "OcTreeVolume list"

record OctomapServer =
  m_occupiedCellsVis :: "Marker list"
  m_frameId :: string
  m_useHeightMap :: bool
  m_color :: ColorRGBA
  m_colorFactor :: real

text \<open>
  The two ways the model of \<^verbatim>\<open>readMap\<close> ends without a result: the \<^verbatim>\<open>assert\<close> of the
  loop fails and aborts the process, or a double leaves the finite numbers, where the
  model of doubles as reals ends.
\<close>

datatype build_error = AssertionFailed | NonFiniteDouble

section \<open>\<^verbatim>\<open>OctomapServer::readMap\<close>\<close>

text \<open>\<^verbatim>\<open>markers.resize(n)\<close>: keeps the first \<open>n\<close> markers, fills up with default ones.\<close>

definition resize_markers :: "nat \<Rightarrow> Marker list \<Rightarrow> Marker list" where
  "resize_markers n ms = take n ms @ replicate (n - length ms) Marker_default"

text \<open>The conversion \<^verbatim>\<open>int(d)\<close> of a double: truncation towards zero.\<close>

definition double_to_int :: "real \<Rightarrow> int" where
  "double_to_int d = (if 0 \<le> d then \<lfloor>d\<rfloor> else \<lceil>d\<rceil>)"

text \<open>
  \<^verbatim>\<open>int idx = int(log2(it->second / lowestRes) + 0.5)\<close>, with \<open>sz\<close> for the edge
  length \<^verbatim>\<open>it->second\<close>. For a zero resolution or a ratio
  that is not positive the double is infinite or NaN, and there is no index.
\<close>

definition voxelIndex :: "real \<Rightarrow> real \<Rightarrow> int option" where
  "voxelIndex lowestRes sz =
     (if lowestRes = 0 \<or> sz / lowestRes \<le> 0 then None
      else Some (double_to_int (log 2 (sz / lowestRes) + 1/2)))"

text \<open>
  \<^verbatim>\<open>(1.0 - std::min(std::max((z - minZ) / (maxZ - minZ), 0.0), 1.0)) * m_colorFactor\<close>.
  For \<^verbatim>\<open>maxZ == minZ\<close> the quotient is infinite or NaN, and there is no fraction.
\<close>

definition heightFraction :: "real \<Rightarrow> real \<Rightarrow> real \<Rightarrow> real \<Rightarrow> real option" where
  "heightFraction z minZ maxZ colorFactor =
     (if maxZ - minZ = 0 then None
      else Some ((1 - min (max ((z - minZ) / (maxZ - minZ)) 0) 1) * colorFactor))"

text \<open>
  The first half of the loop body: the index, the \<^verbatim>\<open>assert\<close>, and
  \<^verbatim>\<open>markers[idx].points.push_back(cubeCenter)\<close>. It returns the index with the markers.
\<close>

definition storeCube ::
  "real \<Rightarrow> Marker list \<Rightarrow> OcTreeVolume \<Rightarrow> build_error + (nat \<times> Marker list)" where
  "storeCube lowestRes ms vol =
     (case voxelIndex lowestRes (snd vol) of
        None \<Rightarrow> Inl NonFiniteDouble
      | Some idx \<Rightarrow>
          if 0 \<le> idx \<and> nat idx < length ms then
            (let cubeCenter = \<lparr>pt_x = pt_x (fst vol), pt_y = pt_y (fst vol),
                               pt_z = pt_z (fst vol)\<rparr>;
                 k = nat idx
             in Inr (k, ms[k := (ms ! k)\<lparr>points := points (ms ! k) @ [cubeCenter]\<rparr>]))
          else Inl AssertionFailed)"

text \<open>
  The second half: \<^verbatim>\<open>if (m_useHeightMap) { double h = ...;\<close>
  \<^verbatim>\<open>markers[idx].colors.push_back(heightMapColor(h)); }\<close>.
\<close>

definition storeColor ::
  "OctomapServer \<Rightarrow> real \<Rightarrow> real \<Rightarrow> OcTreeVolume \<Rightarrow> nat \<Rightarrow> Marker list
     \<Rightarrow> build_error + Marker list" where
  "storeColor srv minZ maxZ vol k ms =
     (if m_useHeightMap srv then
        (case heightFraction (pt_z (fst vol)) minZ maxZ (m_colorFactor srv) of
           None \<Rightarrow> Inl NonFiniteDouble
         | Some h \<Rightarrow> Inr (ms[k := (ms ! k)\<lparr>colors := colors (ms ! k) @ [heightMapColor h]\<rparr>]))
      else Inr ms)"

text \<open>One iteration of the loop over the occupied cells.\<close>

definition readMap_insert ::
  "OctomapServer \<Rightarrow> real \<Rightarrow> real \<Rightarrow> real \<Rightarrow> Marker list \<Rightarrow> OcTreeVolume
     \<Rightarrow> build_error + Marker list" where
  "readMap_insert srv lowestRes minZ maxZ ms vol =
     (case storeCube lowestRes ms vol of
        Inl e \<Rightarrow> Inl e
      | Inr (k, ms1) \<Rightarrow> storeColor srv minZ maxZ vol k ms1)"

text \<open>
  The loop \<^verbatim>\<open>for (it = occupiedCells.begin(); it != occupiedCells.end(); ++it)\<close>. An
  iteration that does not return ends the loop. The counter \<^verbatim>\<open>numVoxels\<close> only feeds
  the log line and is left out.
\<close>

fun readMap_loop ::
  "OctomapServer \<Rightarrow> real \<Rightarrow> real \<Rightarrow> real \<Rightarrow> Marker list \<Rightarrow> OcTreeVolume list
     \<Rightarrow> build_error + Marker list" where
  "readMap_loop srv lowestRes minZ maxZ ms [] = Inr ms"
| "readMap_loop srv lowestRes minZ maxZ ms (vol # rest) =
     (case readMap_insert srv lowestRes minZ maxZ ms vol of
        Inl e \<Rightarrow> Inl e
      | Inr ms' \<Rightarrow> readMap_loop srv lowestRes minZ maxZ ms' rest)"

text \<open>The body of the second loop, for the marker at index \<open>i\<close>.\<close>

definition readMap_finalize :: "OctomapServer \<Rightarrow> real \<Rightarrow> nat \<Rightarrow> Marker \<Rightarrow> Marker" where
  "readMap_finalize srv lowestRes i mk =
     (let sz = lowestRes * 2 ^ i
      in mk\<lparr>frame_id := m_frameId srv,
            ns := ''map'',
            marker_id := int i,
            marker_type := CUBE_LIST,
            scale_x := sz, scale_y := sz, scale_z := sz,
            color := m_color srv,
            action := (if length (points mk) > 0 then ADD else DELETE)\<rparr>)"

text \<open>
  \<^verbatim>\<open>readMap\<close>: resize to 16 markers, fill them from the occupied cells, finalise each
  marker. The \<^verbatim>\<open>reserve\<close> calls change capacities only.
\<close>

definition readMap :: "OctomapServer \<Rightarrow> OcTree \<Rightarrow> build_error + OctomapServer" where
  "readMap srv m =
     (let minZ = pt_z (metricMin m);
          maxZ = pt_z (metricMax m);
          ms0 = resize_markers 16 (m_occupiedCellsVis srv);
          lowestRes = resolution m
      in case readMap_loop srv lowestRes minZ maxZ ms0 (occupied m) of
           Inl e \<Rightarrow> Inl e
         | Inr ms \<Rightarrow>
             Inr (srv\<lparr>m_occupiedCellsVis :=
                        map (\<lambda>i. readMap_finalize srv lowestRes i (ms ! i)) [0..<length ms]\<rparr>))"

text \<open>
  The constructor: the members from the parameters (defaults \<^verbatim>\<open>"/map"\<close>, \<^verbatim>\<open>true\<close>,
  \<^verbatim>\<open>0.8\<close> and the colour (0, 0, 1, 1)), no markers yet, then \<^verbatim>\<open>readMap\<close>. Advertising and
  publishing are outside the model.
\<close>

definition OctomapServer_init :: "string \<Rightarrow> bool \<Rightarrow> real \<Rightarrow> ColorRGBA \<Rightarrow> OctomapServer" where
  "OctomapServer_init frameId useHeightMap colorFactor col =
     \<lparr>m_occupiedCellsVis = [], m_frameId = frameId, m_useHeightMap = useHeightMap,
      m_color = col, m_colorFactor = colorFactor\<rparr>"

definition OctomapServer_ctor ::
  "string \<Rightarrow> bool \<Rightarrow> real \<Rightarrow> ColorRGBA \<Rightarrow> OcTree \<Rightarrow> build_error + OctomapServer" where
  "OctomapServer_ctor frameId useHeightMap colorFactor col m =
     readMap (OctomapServer_init frameId useHeightMap colorFactor col) m"

subsection \<open>The classification and the height fraction as the specification words them\<close>

text \<open>\<open>round\<close> to the nearest integer, halves away from zero.\<close>

definition round_spec :: "real \<Rightarrow> int" where
  "round_spec d = (if 0 \<le> d then \<lfloor>d + 1/2\<rfloor> else \<lceil>d - 1/2\<rceil>)"

definition levelIndex_spec :: "real \<Rightarrow> real \<Rightarrow> int" where
  "levelIndex_spec baseResolution sz = round_spec (log 2 (sz / baseResolution))"

definition clamp_spec :: "real \<Rightarrow> real \<Rightarrow> real \<Rightarrow> real" where
  "clamp_spec d lo hi = (if d < lo then lo else if hi < d then hi else d)"

definition hFraction_spec :: "real \<Rightarrow> real \<Rightarrow> real \<Rightarrow> real \<Rightarrow> real" where
  "hFraction_spec z zMin zMax colorFactor =
     (1 - clamp_spec ((z - zMin) / (zMax - zMin)) 0 1) * colorFactor"

subsection \<open>Vocabulary for the results of the loop\<close>

text \<open>The voxels of a list that the loop stores in the marker \<open>k\<close>, in input order.\<close>

definition bucketOf :: "real \<Rightarrow> nat \<Rightarrow> OcTreeVolume list \<Rightarrow> OcTreeVolume list" where
  "bucketOf lowestRes k vols = filter (\<lambda>vol. voxelIndex lowestRes (snd vol) = Some (int k)) vols"

text \<open>The colour of a voxel: the colour mapping at the height fraction of its centre.\<close>

definition voxelColor :: "OctomapServer \<Rightarrow> real \<Rightarrow> real \<Rightarrow> OcTreeVolume \<Rightarrow> ColorRGBA" where
  "voxelColor srv minZ maxZ vol =
     heightMapColor (hFraction_spec (pt_z (fst vol)) minZ maxZ (m_colorFactor srv))"

text \<open>A marker with the centres, and under height colouring the colours, of voxels appended.\<close>

definition appendVoxels ::
  "OctomapServer \<Rightarrow> real \<Rightarrow> real \<Rightarrow> OcTreeVolume list \<Rightarrow> Marker \<Rightarrow> Marker" where
  "appendVoxels srv minZ maxZ vols mk =
     mk\<lparr>points := points mk @ map fst vols,
        colors := colors mk @
          (if m_useHeightMap srv then map (voxelColor srv minZ maxZ) vols else [])\<rparr>"

subsection \<open>Example inputs\<close>

text \<open>
  A map of resolution 1 between the heights 0 and 10 with four occupied voxels of the
  edge lengths 1, 1, 2 and 4; the same map with other occupied voxels, among them none;
  and voxels of which the second has the edge length \<open>2 ^ 16\<close>, one level above the
  sixteen markers.
\<close>

definition example_cells :: "OcTreeVolume list" where
  "example_cells =
     [(\<lparr>pt_x = 0, pt_y = 0, pt_z = 0\<rparr>, 1), (\<lparr>pt_x = 1, pt_y = 0, pt_z = 10\<rparr>, 1),
      (\<lparr>pt_x = 2, pt_y = 2, pt_z = 5\<rparr>, 2), (\<lparr>pt_x = 0, pt_y = 0, pt_z = 2\<rparr>, 4)]"

definition example_map :: "OcTreeVolume list \<Rightarrow> OcTree" where
  "example_map cells =
     \<lparr>resolution = 1, metricMin = \<lparr>pt_x = 0, pt_y = 0, pt_z = 0\<rparr>,
      metricMax = \<lparr>pt_x = 4, pt_y = 4, pt_z = 10\<rparr>, occupied = cells\<rparr>"

definition corrupt_cells :: "OcTreeVolume list" where
  "corrupt_cells =
     [(\<lparr>pt_x = 0, pt_y = 0, pt_z = 0\<rparr>, 1), (\<lparr>pt_x = 0, pt_y = 0, pt_z = 0\<rparr>, 65536),
      (\<lparr>pt_x = 1, pt_y = 1, pt_z = 1\<rparr>, 1)]"

text \<open>A single voxel of half the resolution, smaller than any cell of the tree.\<close>

definition undersized_cells :: "OcTreeVolume list" where
  "undersized_cells = [(\<lparr>pt_x = 0, pt_y = 0, pt_z = 0\<rparr>, 1/2)]"

text \<open>The server members with the defaults of the constructor.\<close>

definition default_server :: OctomapServer where
  "default_server =
     OctomapServer_init ''/map'' True (4/5) \<lparr>col_r = 0, col_g = 0, col_b = 1, col_a = 1\<rparr>"

section \<open>Properties of the colour mapping\<close>

lemma wrapped_range: "0 \<le> h - of_int \<lfloor>h\<rfloor> \<and> h - of_int \<lfloor>h\<rfloor> < (1::real)"
  by linarith

lemma sector_range:
  fixes h :: real
  shows "0 \<le> \<lfloor>(h - of_int \<lfloor>h\<rfloor>) * 6\<rfloor> \<and> \<lfloor>(h - of_int \<lfloor>h\<rfloor>) * 6\<rfloor> \<le> 5"
proof -
  have "0 \<le> (h - of_int \<lfloor>h\<rfloor>) * 6" and "(h - of_int \<lfloor>h\<rfloor>) * 6 < 6"
    using wrapped_range [of h] by simp_all
  then show ?thesis
    by (simp only: zero_le_floor floor_le_numeral) simp
qed

lemma bit_test_even: "((i::int) AND 1 = 0) = even i"
  by (simp add: and_one_eq even_iff_mod_2_eq_zero)

lemma colorSwitch_table: "colorSwitch i 1 n 0 = sectorTable_spec i n 0"
  by (simp add: colorSwitch_def sectorTable_spec_def)

lemma colorSwitch_alpha: "col_a (colorSwitch i v n m) = 1"
  by (simp add: colorSwitch_def)

lemma heightMapColor_eq_spec: "heightMapColor h = colorForHeight_spec h"
  by (simp add: heightMapColor_def colorForHeight_spec_def Let_def bit_test_even
      colorSwitch_table)

text \<open>
  C2. For every input \<open>h\<close>, \<open>heightMapColor\<close> computes what the specification describes:
  it wraps \<open>h\<close> into \<open>[0,1)\<close> by subtracting its floor, takes the sector
  \<open>i = floor (h * 6)\<close> and the fraction \<open>f = h * 6 - i\<close>, inverts \<open>f\<close> when \<open>i\<close> is even,
  sets \<open>m = 0\<close> and \<open>n = 1 - f\<close>, and returns the entry of the sector table, with alpha 1.
  A sector outside \<open>{0..6}\<close> sent through the \<^verbatim>\<open>switch\<close> gives the fallback colour
  \<open>(1, 0.5, 0.5, 1)\<close>.
\<close>

theorem heightMapColor_follows_sector_table:
  "heightMapColor h = colorForHeight_spec h
   \<and> 0 \<le> h - of_int \<lfloor>h\<rfloor> \<and> h - of_int \<lfloor>h\<rfloor> < 1
   \<and> col_a (heightMapColor h) = 1
   \<and> (\<forall>i v n m. i < 0 \<or> 6 < i \<longrightarrow>
         colorSwitch i v n m = \<lparr>col_r = 1, col_g = 1/2, col_b = 1/2, col_a = 1\<rparr>)"
proof -
  have "col_a (heightMapColor h) = 1"
    by (simp add: heightMapColor_def Let_def colorSwitch_alpha)
  moreover have "\<forall>i v n m. i < 0 \<or> 6 < i \<longrightarrow>
         colorSwitch i v n m = \<lparr>col_r = 1, col_g = 1/2, col_b = 1/2, col_a = 1\<rparr>"
    by (auto simp add: colorSwitch_def)
  ultimately show ?thesis
    using heightMapColor_eq_spec [of h] wrapped_range [of h] by blast
qed

theorem heightMapColor_follows_sector_table_witness:
  "heightMapColor (4/5) = \<lparr>col_r = 4/5, col_g = 0, col_b = 1, col_a = 1\<rparr>
   \<and> ((7::int) < 0 \<or> (6::int) < 7)
   \<and> colorSwitch 7 1 0 0 = \<lparr>col_r = 1, col_g = 1/2, col_b = 1/2, col_a = 1\<rparr>"
proof -
  note t = heightMapColor_follows_sector_table [of "4/5"]
  have "heightMapColor (4/5) = colorForHeight_spec (4/5)"
    using t by blast
  moreover have "colorForHeight_spec (4/5) = \<lparr>col_r = 4/5, col_g = 0, col_b = 1, col_a = 1\<rparr>"
    by (simp add: colorForHeight_spec_def sectorTable_spec_def Let_def)
  moreover have "(7::int) < 0 \<or> (6::int) < 7"
    by simp
  moreover from this have
    "colorSwitch 7 1 0 0 = \<lparr>col_r = 1, col_g = 1/2, col_b = 1/2, col_a = 1\<rparr>"
    using t by blast
  ultimately show ?thesis by simp
qed

text \<open>
  C9. The colour mapping has period 1: the first step subtracts the floor of its input,
  and \<open>h\<close> and \<open>h + 1\<close> have the same fractional part.
\<close>

theorem heightMapColor_periodic: "heightMapColor (h + 1) = heightMapColor h"
  by (simp add: heightMapColor_def)

text \<open>
  C10. For every input, the red, green and blue components of the colour lie in
  \<open>[0,1]\<close> and alpha is 1.
\<close>

theorem heightMapColor_components_in_unit_interval:
  "0 \<le> col_r (heightMapColor h) \<and> col_r (heightMapColor h) \<le> 1
   \<and> 0 \<le> col_g (heightMapColor h) \<and> col_g (heightMapColor h) \<le> 1
   \<and> 0 \<le> col_b (heightMapColor h) \<and> col_b (heightMapColor h) \<le> 1
   \<and> col_a (heightMapColor h) = 1"
proof -
  define w where "w = (h - of_int \<lfloor>h\<rfloor>) * 6"
  define i where "i = \<lfloor>w\<rfloor>"
  define f where "f = w - of_int i"
  define n where "n = 1 - (if even i then 1 - f else f)"
  have f: "0 \<le> f" "f < 1"
    unfolding f_def i_def by linarith+
  then have n: "0 \<le> n" "n \<le> 1"
    by (simp_all add: n_def)
  have c: "heightMapColor h = sectorTable_spec i n 0"
    by (simp add: heightMapColor_eq_spec colorForHeight_spec_def Let_def
        w_def i_def f_def n_def)
  show ?thesis
    unfolding c using n by (simp add: sectorTable_spec_def)
qed

section \<open>Properties of the loop over the occupied cells\<close>

lemma heightFraction_eq_spec:
  "minZ \<noteq> maxZ \<Longrightarrow>
     heightFraction z minZ maxZ cf = Some (hFraction_spec z minZ maxZ cf)"
  by (simp add: heightFraction_def hFraction_spec_def clamp_spec_def min_def max_def)

lemma heightFraction_degenerate: "heightFraction z minZ minZ cf = None"
  by (simp add: heightFraction_def)

lemma Point_eta: "\<lparr>pt_x = pt_x p, pt_y = pt_y p, pt_z = pt_z p\<rparr> = (p::Point)"
  by simp

lemma storeCube_Inr:
  assumes "storeCube lowestRes ms vol = Inr (k, ms1)"
  shows "voxelIndex lowestRes (snd vol) = Some (int k)" and "k < length ms"
    and "ms1 = ms[k := (ms ! k)\<lparr>points := points (ms ! k) @ [fst vol]\<rparr>]"
  using assms
  by (auto simp add: storeCube_def Let_def Point_eta split: option.splits if_splits)

lemma storeCube_in_range:
  assumes "voxelIndex lowestRes (snd vol) = Some (int k)" and "k < length ms"
  shows "storeCube lowestRes ms vol =
           Inr (k, ms[k := (ms ! k)\<lparr>points := points (ms ! k) @ [fst vol]\<rparr>])"
  using assms by (simp add: storeCube_def Let_def Point_eta)

lemma storeCube_out_of_range:
  assumes "voxelIndex lowestRes (snd vol) = Some idx" and "idx < 0 \<or> int (length ms) \<le> idx"
  shows "storeCube lowestRes ms vol = Inl AssertionFailed"
  using assms by (auto simp add: storeCube_def)

lemma storeColor_Inr:
  assumes "storeColor srv minZ maxZ vol k ms = Inr ms'"
  shows "ms' = (if m_useHeightMap srv
                then ms[k := (ms ! k)\<lparr>colors := colors (ms ! k) @ [voxelColor srv minZ maxZ vol]\<rparr>]
                else ms)"
proof (cases "minZ = maxZ")
  case True
  with assms show ?thesis
    by (auto simp add: storeColor_def heightFraction_degenerate split: if_splits)
next
  case False
  with assms show ?thesis
    by (auto simp add: storeColor_def voxelColor_def heightFraction_eq_spec split: if_splits)
qed

lemma readMap_insert_Inr:
  assumes "readMap_insert srv lowestRes minZ maxZ ms vol = Inr ms'"
  shows "\<exists>k. voxelIndex lowestRes (snd vol) = Some (int k) \<and> k < length ms
           \<and> ms' = ms[k := appendVoxels srv minZ maxZ [vol] (ms ! k)]"
proof -
  from assms obtain k ms1 where
    c: "storeCube lowestRes ms vol = Inr (k, ms1)" and
    s: "storeColor srv minZ maxZ vol k ms1 = Inr ms'"
    by (auto simp add: readMap_insert_def split: sum.splits)
  note c' = storeCube_Inr [OF c]
  have "ms' = ms[k := appendVoxels srv minZ maxZ [vol] (ms ! k)]"
    using storeColor_Inr [OF s] c'(2) by (simp add: c'(3) appendVoxels_def)
  with c' show ?thesis by blast
qed

lemma appendVoxels_Cons:
  "appendVoxels srv minZ maxZ vols (appendVoxels srv minZ maxZ [vol] mk) =
     appendVoxels srv minZ maxZ (vol # vols) mk"
  by (simp add: appendVoxels_def)

lemma appendVoxels_Nil: "appendVoxels srv minZ maxZ [] mk = mk"
  by (simp add: appendVoxels_def)

lemma readMap_loop_Inr:
  assumes "readMap_loop srv lowestRes minZ maxZ ms vols = Inr ms'"
  shows "length ms' = length ms \<and>
         (\<forall>k<length ms. ms' ! k = appendVoxels srv minZ maxZ (bucketOf lowestRes k vols) (ms ! k))"
  using assms
proof (induction vols arbitrary: ms)
  case Nil
  then show ?case by (simp add: bucketOf_def appendVoxels_Nil)
next
  case (Cons vol rest)
  from Cons.prems obtain ms1 where
    i: "readMap_insert srv lowestRes minZ maxZ ms vol = Inr ms1" and
    l: "readMap_loop srv lowestRes minZ maxZ ms1 rest = Inr ms'"
    by (auto split: sum.splits)
  from readMap_insert_Inr [OF i] obtain k0 where
    k0: "voxelIndex lowestRes (snd vol) = Some (int k0)" "k0 < length ms"
      "ms1 = ms[k0 := appendVoxels srv minZ maxZ [vol] (ms ! k0)]"
    by blast
  have len: "length ms1 = length ms"
    by (simp add: k0(3))
  note ih = Cons.IH [OF l]
  show ?case
  proof (intro conjI allI impI)
    show "length ms' = length ms"
      using ih len by simp
  next
    fix k assume k: "k < length ms"
    then have eq: "ms' ! k = appendVoxels srv minZ maxZ (bucketOf lowestRes k rest) (ms1 ! k)"
      using ih len by simp
    show "ms' ! k = appendVoxels srv minZ maxZ (bucketOf lowestRes k (vol # rest)) (ms ! k)"
    proof (cases "k = k0")
      case True
      then show ?thesis
        using eq k k0 by (simp add: bucketOf_def appendVoxels_Cons)
    next
      case False
      then show ?thesis
        using eq k k0 by (simp add: bucketOf_def)
    qed
  qed
qed

lemma readMap_loop_append:
  "readMap_loop srv lowestRes minZ maxZ ms (xs @ ys) =
     (case readMap_loop srv lowestRes minZ maxZ ms xs of
        Inl e \<Rightarrow> Inl e
      | Inr mid \<Rightarrow> readMap_loop srv lowestRes minZ maxZ mid ys)"
  by (induction xs arbitrary: ms) (auto split: sum.splits)

lemma readMap_loop_indices:
  assumes "readMap_loop srv lowestRes minZ maxZ ms vols = Inr ms'"
    and "vol \<in> set vols"
  shows "\<exists>k<length ms. voxelIndex lowestRes (snd vol) = Some (int k)"
  using assms
proof (induction vols arbitrary: ms)
  case Nil
  then show ?case by simp
next
  case (Cons v rest)
  from Cons.prems(1) obtain ms1 where
    i: "readMap_insert srv lowestRes minZ maxZ ms v = Inr ms1" and
    l: "readMap_loop srv lowestRes minZ maxZ ms1 rest = Inr ms'"
    by (auto split: sum.splits)
  from readMap_insert_Inr [OF i] obtain k0 where
    k0: "voxelIndex lowestRes (snd v) = Some (int k0)" "k0 < length ms"
      "ms1 = ms[k0 := appendVoxels srv minZ maxZ [v] (ms ! k0)]"
    by blast
  have len: "length ms1 = length ms"
    by (simp add: k0(3))
  show ?case
  proof (cases "vol = v")
    case True
    then show ?thesis using k0 by blast
  next
    case False
    then have "vol \<in> set rest" using Cons.prems(2) by simp
    from Cons.IH [OF l this] len show ?thesis by simp
  qed
qed

lemma resize_markers_length: "length (resize_markers n ms) = n"
  by (simp add: resize_markers_def)

lemma resize_markers_fresh: "k < n \<Longrightarrow> resize_markers n [] ! k = Marker_default"
  by (simp add: resize_markers_def)

lemma readMap_finalize_points [simp]:
  "points (readMap_finalize srv lowestRes i mk) = points mk"
  "colors (readMap_finalize srv lowestRes i mk) = colors mk"
  by (simp_all add: readMap_finalize_def Let_def)

lemma readMap_Inr:
  assumes "readMap srv m = Inr srv'"
  shows "\<exists>ms.
    readMap_loop srv (resolution m) (pt_z (metricMin m)) (pt_z (metricMax m))
       (resize_markers 16 (m_occupiedCellsVis srv)) (occupied m) = Inr ms
    \<and> length ms = 16
    \<and> length (m_occupiedCellsVis srv') = 16
    \<and> (\<forall>i<16. m_occupiedCellsVis srv' ! i = readMap_finalize srv (resolution m) i (ms ! i))"
proof -
  from assms obtain ms where
    l: "readMap_loop srv (resolution m) (pt_z (metricMin m)) (pt_z (metricMax m))
          (resize_markers 16 (m_occupiedCellsVis srv)) (occupied m) = Inr ms" and
    r: "srv' = srv\<lparr>m_occupiedCellsVis :=
          map (\<lambda>i. readMap_finalize srv (resolution m) i (ms ! i)) [0..<length ms]\<rparr>"
    by (auto simp add: readMap_def Let_def split: sum.splits)
  have len: "length ms = 16"
    using readMap_loop_Inr [OF l] by (simp add: resize_markers_length)
  have "length (m_occupiedCellsVis srv') = 16"
    by (simp add: r len)
  moreover have
    "\<forall>i<16. m_occupiedCellsVis srv' ! i = readMap_finalize srv (resolution m) i (ms ! i)"
    by (simp add: r len)
  ultimately show ?thesis
    using l len by blast
qed

lemma readMap_no_voxels:
  assumes "occupied m = []"
  shows "readMap srv m =
           Inr (srv\<lparr>m_occupiedCellsVis :=
                  map (\<lambda>i. readMap_finalize srv (resolution m) i
                              (resize_markers 16 (m_occupiedCellsVis srv) ! i)) [0..<16]\<rparr>)"
  using assms by (simp add: readMap_def Let_def resize_markers_length)

lemma voxelIndex_power_of_two:
  assumes "lowestRes \<noteq> 0"
  shows "voxelIndex lowestRes (lowestRes * 2 ^ k) = Some (int k)"
proof -
  have "\<lfloor>real k + 1/2\<rfloor> = int k"
    by linarith
  moreover have "\<not> (2::real) ^ k \<le> 0"
    by (simp add: not_le)
  ultimately show ?thesis
    using assms by (simp add: voxelIndex_def double_to_int_def)
qed

lemma levelIndex_spec_power_of_two:
  assumes "baseResolution \<noteq> 0"
  shows "levelIndex_spec baseResolution (baseResolution * 2 ^ k) = int k"
proof -
  have "\<lfloor>real k + 1/2\<rfloor> = int k"
    by linarith
  then show ?thesis
    using assms by (simp add: levelIndex_spec_def round_spec_def)
qed

lemma ctor_buckets:
  assumes "OctomapServer_ctor frameId useHeightMap colorFactor col m = Inr srv'"
    and "k < 16"
  shows "points (m_occupiedCellsVis srv' ! k) = map fst (bucketOf (resolution m) k (occupied m))"
    and "colors (m_occupiedCellsVis srv' ! k) =
           (if useHeightMap
            then map (voxelColor (OctomapServer_init frameId useHeightMap colorFactor col)
                        (pt_z (metricMin m)) (pt_z (metricMax m)))
                   (bucketOf (resolution m) k (occupied m))
            else [])"
proof -
  let ?srv = "OctomapServer_init frameId useHeightMap colorFactor col"
  from assms(1) have r: "readMap ?srv m = Inr srv'"
    by (simp add: OctomapServer_ctor_def)
  from r obtain ms where
    l: "readMap_loop ?srv (resolution m) (pt_z (metricMin m)) (pt_z (metricMax m))
          (resize_markers 16 (m_occupiedCellsVis ?srv)) (occupied m) = Inr ms" and
    f: "\<And>i. i < 16 \<Longrightarrow>
          m_occupiedCellsVis srv' ! i = readMap_finalize ?srv (resolution m) i (ms ! i)"
    using readMap_Inr [OF r] by blast
  have fresh: "m_occupiedCellsVis ?srv = []" and hm: "m_useHeightMap ?srv = useHeightMap"
    by (simp_all add: OctomapServer_init_def)
  have "ms ! k = appendVoxels ?srv (pt_z (metricMin m)) (pt_z (metricMax m))
                   (bucketOf (resolution m) k (occupied m)) Marker_default"
    using readMap_loop_Inr [OF l] assms(2)
    by (simp add: resize_markers_length fresh resize_markers_fresh)
  then show "points (m_occupiedCellsVis srv' ! k) =
               map fst (bucketOf (resolution m) k (occupied m))"
    and "colors (m_occupiedCellsVis srv' ! k) =
           (if useHeightMap
            then map (voxelColor ?srv (pt_z (metricMin m)) (pt_z (metricMax m)))
                   (bucketOf (resolution m) k (occupied m))
            else [])"
    using f [OF assms(2)] by (simp_all add: appendVoxels_def Marker_default_def hm)
qed

lemma readMap_insert_succeeds:
  assumes "voxelIndex lowestRes (snd vol) = Some (int k)" and "k < length ms"
    and "m_useHeightMap srv \<longrightarrow> minZ \<noteq> maxZ"
  shows "readMap_insert srv lowestRes minZ maxZ ms vol =
           Inr (ms[k := appendVoxels srv minZ maxZ [vol] (ms ! k)])"
  using assms
  by (simp add: readMap_insert_def storeCube_in_range storeColor_def heightFraction_eq_spec
      appendVoxels_def voxelColor_def)

lemma readMap_loop_succeeds:
  assumes "\<forall>vol\<in>set vols. \<exists>k<length ms. voxelIndex lowestRes (snd vol) = Some (int k)"
    and "m_useHeightMap srv \<longrightarrow> minZ \<noteq> maxZ"
  shows "\<exists>ms'. readMap_loop srv lowestRes minZ maxZ ms vols = Inr ms'"
  using assms(1)
proof (induction vols arbitrary: ms)
  case Nil
  then show ?case by simp
next
  case (Cons vol rest)
  then obtain k where k: "k < length ms" "voxelIndex lowestRes (snd vol) = Some (int k)"
    by auto
  let ?ms1 = "ms[k := appendVoxels srv minZ maxZ [vol] (ms ! k)]"
  have i: "readMap_insert srv lowestRes minZ maxZ ms vol = Inr ?ms1"
    using readMap_insert_succeeds [OF k(2) k(1) assms(2)] .
  have "\<forall>v\<in>set rest. \<exists>j<length ?ms1. voxelIndex lowestRes (snd v) = Some (int j)"
    using Cons.prems by simp
  from Cons.IH [OF this] show ?case
    by (simp add: i)
qed

lemma readMap_succeeds:
  assumes "\<forall>vol\<in>set (occupied m). \<exists>k<16. voxelIndex (resolution m) (snd vol) = Some (int k)"
    and "m_useHeightMap srv \<longrightarrow> pt_z (metricMin m) \<noteq> pt_z (metricMax m)"
  shows "\<exists>srv'. readMap srv m = Inr srv'"
proof -
  have "\<exists>ms'. readMap_loop srv (resolution m) (pt_z (metricMin m)) (pt_z (metricMax m))
          (resize_markers 16 (m_occupiedCellsVis srv)) (occupied m) = Inr ms'"
    by (rule readMap_loop_succeeds) (simp_all add: resize_markers_length assms)
  then show ?thesis
    by (auto simp add: readMap_def Let_def)
qed

lemma voxelIndex_examples:
  "voxelIndex 1 1 = Some 0" "voxelIndex 1 2 = Some 1" "voxelIndex 1 4 = Some 2"
  "voxelIndex 1 65536 = Some 16"
  using voxelIndex_power_of_two [of 1 0] voxelIndex_power_of_two [of 1 1]
    voxelIndex_power_of_two [of 1 2] voxelIndex_power_of_two [of 1 16]
  by simp_all

lemma example_map_succeeds:
  "\<exists>srv'. readMap default_server (example_map example_cells) = Inr srv'"
proof (rule readMap_succeeds)
  show "\<forall>vol\<in>set (occupied (example_map example_cells)).
          \<exists>k<16. voxelIndex (resolution (example_map example_cells)) (snd vol) = Some (int k)"
    by (auto simp add: example_map_def example_cells_def voxelIndex_examples
        intro: exI [of _ 0] exI [of _ 1] exI [of _ 2])
  show "m_useHeightMap default_server \<longrightarrow>
          pt_z (metricMin (example_map example_cells)) \<noteq>
          pt_z (metricMax (example_map example_cells))"
    by (simp add: example_map_def)
qed

lemma example_buckets:
  "bucketOf 1 0 example_cells =
     [(\<lparr>pt_x = 0, pt_y = 0, pt_z = 0\<rparr>, 1), (\<lparr>pt_x = 1, pt_y = 0, pt_z = 10\<rparr>, 1)]"
  "bucketOf 1 1 example_cells = [(\<lparr>pt_x = 2, pt_y = 2, pt_z = 5\<rparr>, 2)]"
  "bucketOf 1 2 example_cells = [(\<lparr>pt_x = 0, pt_y = 0, pt_z = 2\<rparr>, 4)]"
  "bucketOf 1 3 example_cells = []"
  by (simp_all add: bucketOf_def example_cells_def voxelIndex_examples)

text \<open>
  The index is the logarithm rounded by adding one half and truncating towards zero. For
  a logarithm above \<open>- 1/2\<close> this is rounding to the nearest integer. From there down,
  the truncation gives one more than rounding: for a logarithm above \<open>- 3/2\<close> and up to
  \<open>- 1/2\<close>, as for a voxel of half the resolution, the rounded logarithm is \<open>- 1\<close> and the
  index is 0, inside the range of the \<^verbatim>\<open>assert\<close>.
\<close>

lemma voxelIndex_at_half_resolution:
  "voxelIndex 1 (1/2) = Some 0 \<and> levelIndex_spec 1 (1/2) = - 1"
  by (simp add: voxelIndex_def levelIndex_spec_def round_spec_def double_to_int_def log_divide
      ceiling_def)

lemma voxelIndex_below_resolution:
  assumes "0 < lowestRes" and "0 < sz"
    and "- 3/2 < log 2 (sz / lowestRes)" and "log 2 (sz / lowestRes) \<le> - 1/2"
  shows "voxelIndex lowestRes sz = Some 0 \<and> levelIndex_spec lowestRes sz = - 1"
proof -
  define L where "L = log 2 (sz / lowestRes)"
  have L: "- 3/2 < L" "L \<le> - 1/2"
    using assms(3,4) by (simp_all add: L_def)
  have "double_to_int (L + 1/2) = 0"
    using L unfolding double_to_int_def by (auto simp add: ceiling_eq_iff floor_eq_iff)
  moreover have "round_spec L = - 1"
    using L unfolding round_spec_def by (auto simp add: ceiling_eq_iff)
  moreover have "\<not> sz / lowestRes \<le> 0"
    using assms(1,2) by (simp add: not_le)
  ultimately show ?thesis
    using assms(1) by (simp add: voxelIndex_def levelIndex_spec_def L_def)
qed

section \<open>The claims about the classification\<close>

text \<open>
  C1. For a resolution that is not zero, a voxel whose edge length is the base resolution
  times \<open>2 ^ k\<close>, with \<open>k\<close> below the number of levels (the number of markers, sixteen in
  a build), gets the level index \<open>k\<close>, which is the rounded logarithm
  \<open>round (log2 (size / baseResolution))\<close> of the specification, and its centre is appended
  to the points of the marker \<open>k\<close> while every other marker stays as it was. In the result
  of a build the voxel is among the voxels of the level \<open>k\<close> and of no other level.
\<close>

theorem power_of_two_voxel_stored_at_its_level:
  assumes "lowestRes \<noteq> 0" and "k < length ms" and "snd vol = lowestRes * 2 ^ k"
  shows "voxelIndex lowestRes (snd vol) = Some (levelIndex_spec lowestRes (snd vol))
    \<and> levelIndex_spec lowestRes (snd vol) = int k
    \<and> (\<exists>ms'. storeCube lowestRes ms vol = Inr (k, ms')
          \<and> length ms' = length ms
          \<and> points (ms' ! k) = points (ms ! k) @ [fst vol]
          \<and> (\<forall>j<length ms. j \<noteq> k \<longrightarrow> ms' ! j = ms ! j))
    \<and> (\<forall>srv' j. OctomapServer_ctor frameId useHeightMap colorFactor col m = Inr srv'
          \<and> resolution m = lowestRes \<and> vol \<in> set (occupied m) \<and> j < 16 \<longrightarrow>
          points (m_occupiedCellsVis srv' ! j) = map fst (bucketOf lowestRes j (occupied m))
          \<and> (vol \<in> set (bucketOf lowestRes j (occupied m))) = (j = k))"
proof -
  have idx: "voxelIndex lowestRes (snd vol) = Some (int k)"
    using voxelIndex_power_of_two [OF assms(1)] assms(3) by simp
  have lvl: "levelIndex_spec lowestRes (snd vol) = int k"
    using levelIndex_spec_power_of_two [OF assms(1)] assms(3) by simp
  let ?ms' = "ms[k := (ms ! k)\<lparr>points := points (ms ! k) @ [fst vol]\<rparr>]"
  have "storeCube lowestRes ms vol = Inr (k, ?ms')"
    using storeCube_in_range [OF idx assms(2)] .
  moreover have "length ?ms' = length ms"
    by simp
  moreover have "points (?ms' ! k) = points (ms ! k) @ [fst vol]"
    using assms(2) by simp
  moreover have "\<forall>j<length ms. j \<noteq> k \<longrightarrow> ?ms' ! j = ms ! j"
    by simp
  ultimately have step: "\<exists>ms'. storeCube lowestRes ms vol = Inr (k, ms')
          \<and> length ms' = length ms
          \<and> points (ms' ! k) = points (ms ! k) @ [fst vol]
          \<and> (\<forall>j<length ms. j \<noteq> k \<longrightarrow> ms' ! j = ms ! j)"
    by blast
  have build: "\<forall>srv' j. OctomapServer_ctor frameId useHeightMap colorFactor col m = Inr srv'
          \<and> resolution m = lowestRes \<and> vol \<in> set (occupied m) \<and> j < 16 \<longrightarrow>
          points (m_occupiedCellsVis srv' ! j) = map fst (bucketOf lowestRes j (occupied m))
          \<and> (vol \<in> set (bucketOf lowestRes j (occupied m))) = (j = k)"
  proof (intro allI impI, elim conjE)
    fix srv' and j :: nat
    assume c: "OctomapServer_ctor frameId useHeightMap colorFactor col m = Inr srv'"
      and r: "resolution m = lowestRes" and v: "vol \<in> set (occupied m)" and j: "j < 16"
    have "points (m_occupiedCellsVis srv' ! j) = map fst (bucketOf lowestRes j (occupied m))"
      using ctor_buckets(1) [OF c j] r by simp
    moreover have "(vol \<in> set (bucketOf lowestRes j (occupied m))) = (j = k)"
      using v idx by (auto simp add: bucketOf_def)
    ultimately show "points (m_occupiedCellsVis srv' ! j) =
                       map fst (bucketOf lowestRes j (occupied m))
          \<and> (vol \<in> set (bucketOf lowestRes j (occupied m))) = (j = k)"
      by simp
  qed
  show ?thesis
    using idx lvl step build by simp
qed

theorem power_of_two_voxel_stored_at_its_level_witness:
  "(1::real) \<noteq> 0 \<and> (2::nat) < length (resize_markers 16 [])
   \<and> snd (\<lparr>pt_x = 0, pt_y = 0, pt_z = 2\<rparr>, 4::real) = 1 * 2 ^ 2
   \<and> voxelIndex 1 4 = Some 2
   \<and> levelIndex_spec 1 4 = 2
   \<and> (\<exists>ms'. storeCube 1 (resize_markers 16 []) (\<lparr>pt_x = 0, pt_y = 0, pt_z = 2\<rparr>, 4) = Inr (2, ms')
         \<and> points (ms' ! 2) = [\<lparr>pt_x = 0, pt_y = 0, pt_z = 2\<rparr>]
         \<and> points (ms' ! 0) = [])
   \<and> (\<lparr>pt_x = 0, pt_y = 0, pt_z = 2\<rparr>, 4) \<in> set (occupied (example_map example_cells))
   \<and> (\<exists>srv'. OctomapServer_ctor ''/map'' True (4/5) \<lparr>col_r = 0, col_g = 0, col_b = 1, col_a = 1\<rparr>
               (example_map example_cells) = Inr srv'
         \<and> points (m_occupiedCellsVis srv' ! 2) = [\<lparr>pt_x = 0, pt_y = 0, pt_z = 2\<rparr>]
         \<and> (\<lparr>pt_x = 0, pt_y = 0, pt_z = 2\<rparr>, 4) \<notin> set (bucketOf 1 0 example_cells))"
proof -
  let ?vol = "(\<lparr>pt_x = 0, pt_y = 0, pt_z = 2\<rparr>, 4::real)"
  let ?blue = "\<lparr>col_r = 0, col_g = 0, col_b = 1, col_a = 1\<rparr>"
  let ?m = "example_map example_cells"
  have h: "(1::real) \<noteq> 0" "(2::nat) < length (resize_markers 16 [])" "snd ?vol = 1 * 2 ^ 2"
    by (simp_all add: resize_markers_length)
  note t = power_of_two_voxel_stored_at_its_level [OF h, of "''/map''" True "4/5" ?blue ?m]
  have a: "voxelIndex 1 4 = Some 2" "levelIndex_spec 1 4 = 2"
    using t [THEN conjunct1] t [THEN conjunct2, THEN conjunct1] by simp_all
  from t [THEN conjunct2, THEN conjunct2, THEN conjunct1] obtain ms' where
    s: "storeCube 1 (resize_markers 16 []) ?vol = Inr (2, ms')" and
    p: "points (ms' ! 2) = points (resize_markers 16 [] ! 2) @ [\<lparr>pt_x = 0, pt_y = 0, pt_z = 2\<rparr>]" and
    o: "\<forall>j<length (resize_markers 16 []). j \<noteq> 2 \<longrightarrow> ms' ! j = resize_markers 16 [] ! j"
    by auto
  have "points (ms' ! 2) = [\<lparr>pt_x = 0, pt_y = 0, pt_z = 2\<rparr>]"
    using p by (simp add: resize_markers_fresh Marker_default_def)
  moreover have "points (ms' ! 0) = []"
    using o by (simp add: resize_markers_length resize_markers_fresh Marker_default_def)
  ultimately have step: "\<exists>ms'. storeCube 1 (resize_markers 16 []) ?vol = Inr (2, ms')
         \<and> points (ms' ! 2) = [\<lparr>pt_x = 0, pt_y = 0, pt_z = 2\<rparr>]
         \<and> points (ms' ! 0) = []"
    using s by blast
  have m: "resolution ?m = 1" "?vol \<in> set (occupied ?m)" "occupied ?m = example_cells"
    by (simp_all add: example_map_def example_cells_def)
  from example_map_succeeds obtain srv' where
    c: "OctomapServer_ctor ''/map'' True (4/5) ?blue ?m = Inr srv'"
    by (auto simp add: OctomapServer_ctor_def default_server_def)
  note b = t [THEN conjunct2, THEN conjunct2, THEN conjunct2, rule_format]
  have "points (m_occupiedCellsVis srv' ! 2) = [\<lparr>pt_x = 0, pt_y = 0, pt_z = 2\<rparr>]"
    using b [of srv' 2] c m by (simp add: example_buckets)
  moreover have "?vol \<notin> set (bucketOf 1 0 example_cells)"
    using b [of srv' 0] c m by simp
  ultimately have build: "\<exists>srv'. OctomapServer_ctor ''/map'' True (4/5) ?blue ?m = Inr srv'
         \<and> points (m_occupiedCellsVis srv' ! 2) = [\<lparr>pt_x = 0, pt_y = 0, pt_z = 2\<rparr>]
         \<and> ?vol \<notin> set (bucketOf 1 0 example_cells)"
    using c by blast
  show ?thesis
    using h a step m(2) build by blast
qed

text \<open>
  The \<^verbatim>\<open>assert\<close> on the index that line 128 computes: a voxel whose \<^verbatim>\<open>idx\<close> is negative
  or not below the number of markers ends the build. Whenever such a voxel is in the map,
  \<^verbatim>\<open>readMap\<close> returns no result, and when the voxels before it were stored, the outcome
  is the failed assertion, at that voxel, whatever voxels follow it.
\<close>

lemma assert_ends_build_on_idx_out_of_range:
  "(\<forall>vol idx. vol \<in> set (occupied m) \<and> voxelIndex (resolution m) (snd vol) = Some idx
        \<and> (idx < 0 \<or> 16 \<le> idx) \<longrightarrow>
        (\<forall>srv'. readMap srv m \<noteq> Inr srv'))
   \<and> (\<forall>xs vol ys ms1 idx. occupied m = xs @ vol # ys
        \<and> readMap_loop srv (resolution m) (pt_z (metricMin m)) (pt_z (metricMax m))
            (resize_markers 16 (m_occupiedCellsVis srv)) xs = Inr ms1
        \<and> voxelIndex (resolution m) (snd vol) = Some idx \<and> (idx < 0 \<or> 16 \<le> idx) \<longrightarrow>
        storeCube (resolution m) ms1 vol = Inl AssertionFailed
        \<and> readMap srv m = Inl AssertionFailed)"
proof -
  have no_result: "readMap srv m \<noteq> Inr srv'"
    if v: "vol \<in> set (occupied m)"
      and i: "voxelIndex (resolution m) (snd vol) = Some idx" and o: "idx < 0 \<or> 16 \<le> idx"
    for vol idx srv'
  proof
    assume "readMap srv m = Inr srv'"
    from readMap_Inr [OF this] obtain ms where
      l: "readMap_loop srv (resolution m) (pt_z (metricMin m)) (pt_z (metricMax m))
            (resize_markers 16 (m_occupiedCellsVis srv)) (occupied m) = Inr ms"
      by blast
    from readMap_loop_indices [OF l v] obtain k where
      "k < 16" "voxelIndex (resolution m) (snd vol) = Some (int k)"
      by (auto simp add: resize_markers_length)
    with i o show False by simp
  qed
  have aborts: "storeCube (resolution m) ms1 vol = Inl AssertionFailed
        \<and> readMap srv m = Inl AssertionFailed"
    if occ: "occupied m = xs @ vol # ys"
      and l: "readMap_loop srv (resolution m) (pt_z (metricMin m)) (pt_z (metricMax m))
                (resize_markers 16 (m_occupiedCellsVis srv)) xs = Inr ms1"
      and i: "voxelIndex (resolution m) (snd vol) = Some idx" and o: "idx < 0 \<or> 16 \<le> idx"
    for xs vol ys ms1 idx
  proof -
    have len: "length ms1 = 16"
      using readMap_loop_Inr [OF l] by (simp add: resize_markers_length)
    have c: "storeCube (resolution m) ms1 vol = Inl AssertionFailed"
      by (rule storeCube_out_of_range [OF i]) (use o len in simp)
    then have
      "readMap_loop srv (resolution m) (pt_z (metricMin m)) (pt_z (metricMax m))
         (resize_markers 16 (m_occupiedCellsVis srv)) (xs @ vol # ys) = Inl AssertionFailed"
      by (simp add: readMap_loop_append l readMap_insert_def)
    then have "readMap srv m = Inl AssertionFailed"
      by (simp add: readMap_def Let_def occ)
    with c show ?thesis
      by simp
  qed
  show ?thesis
    using no_result aborts by blast
qed

lemma corrupt_cells_end_in_assertion:
  "voxelIndex 1 65536 = Some 16 \<and> ((16::int) < 0 \<or> (16::int) \<le> 16)
   \<and> (\<exists>ms1. readMap_loop default_server 1 0 10 (resize_markers 16 []) [hd corrupt_cells] = Inr ms1)
   \<and> corrupt_cells ! 1 \<in> set corrupt_cells
   \<and> readMap default_server (example_map corrupt_cells) = Inl AssertionFailed"
proof -
  let ?m = "example_map corrupt_cells"
  let ?v = "(\<lparr>pt_x = 0, pt_y = 0, pt_z = 0\<rparr>, 65536::real)"
  have m: "resolution ?m = 1" "pt_z (metricMin ?m) = 0" "pt_z (metricMax ?m) = 10"
    "occupied ?m = [hd corrupt_cells] @ ?v # [(\<lparr>pt_x = 1, pt_y = 1, pt_z = 1\<rparr>, 1)]"
    "m_occupiedCellsVis default_server = []"
    by (simp_all add: example_map_def corrupt_cells_def default_server_def
        OctomapServer_init_def)
  have i: "voxelIndex 1 (snd ?v) = Some 16" and o: "(16::int) < 0 \<or> (16::int) \<le> 16"
    by (simp_all add: voxelIndex_examples)
  have "\<exists>ms1. readMap_loop default_server 1 0 10 (resize_markers 16 []) [hd corrupt_cells] =
          Inr ms1"
    by (rule readMap_loop_succeeds)
      (auto simp add: corrupt_cells_def voxelIndex_examples resize_markers_length
        intro: exI [of _ 0])
  then obtain ms1 where
    l: "readMap_loop default_server 1 0 10 (resize_markers 16 []) [hd corrupt_cells] = Inr ms1"
    by blast
  have "readMap default_server ?m = Inl AssertionFailed"
    using assert_ends_build_on_idx_out_of_range [of ?m default_server, THEN conjunct2,
        rule_format, of "[hd corrupt_cells]" ?v "[(\<lparr>pt_x = 1, pt_y = 1, pt_z = 1\<rparr>, 1)]" ms1 16]
      m i o l
    by simp
  moreover have "corrupt_cells ! 1 \<in> set corrupt_cells"
    by (simp add: corrupt_cells_def)
  ultimately show ?thesis
    using i o l by auto
qed

text \<open>
  C4. The claim: a voxel whose level index \<open>round (log2 (size / baseResolution))\<close> is
  outside the sixteen levels makes the build fail. The code does not do this for a voxel
  of half the resolution. Its level index is \<open>- 1\<close>, but line 128 adds one half and
  truncates towards zero, \<^verbatim>\<open>int(-1 + 0.5)\<close>, which is 0: the \<^verbatim>\<open>assert\<close> passes, the build
  returns, and the voxel is among the points of the marker of level 0, which is emitted
  with the action \<^verbatim>\<open>ADD\<close>.
\<close>

theorem half_resolution_voxel_passes_the_assert:
  "levelIndex_spec (resolution (example_map undersized_cells)) (snd (hd undersized_cells)) = - 1
   \<and> voxelIndex (resolution (example_map undersized_cells)) (snd (hd undersized_cells)) = Some 0
   \<and> (\<exists>srv'. readMap default_server (example_map undersized_cells) = Inr srv'
         \<and> points (m_occupiedCellsVis srv' ! 0) = [\<lparr>pt_x = 0, pt_y = 0, pt_z = 0\<rparr>]
         \<and> action (m_occupiedCellsVis srv' ! 0) = ADD)"
proof -
  let ?m = "example_map undersized_cells"
  let ?blue = "\<lparr>col_r = 0, col_g = 0, col_b = 1, col_a = 1\<rparr>"
  have m: "resolution ?m = 1" "snd (hd undersized_cells) = 1/2"
    "occupied ?m = undersized_cells"
    by (simp_all add: example_map_def undersized_cells_def)
  have idx: "voxelIndex 1 (1/2) = Some 0" and lvl: "levelIndex_spec 1 (1/2) = - 1"
    using voxelIndex_at_half_resolution by simp_all
  have "\<exists>srv'. readMap default_server ?m = Inr srv'"
  proof (rule readMap_succeeds)
    show "\<forall>vol\<in>set (occupied ?m). \<exists>k<16. voxelIndex (resolution ?m) (snd vol) = Some (int k)"
      by (auto simp add: example_map_def undersized_cells_def idx intro: exI [of _ 0])
    show "m_useHeightMap default_server \<longrightarrow> pt_z (metricMin ?m) \<noteq> pt_z (metricMax ?m)"
      by (simp add: example_map_def)
  qed
  then obtain srv' where r: "readMap default_server ?m = Inr srv'"
    by blast
  then have c: "OctomapServer_ctor ''/map'' True (4/5) ?blue ?m = Inr srv'"
    by (simp add: OctomapServer_ctor_def default_server_def)
  have b: "map fst (bucketOf 1 0 undersized_cells) = [\<lparr>pt_x = 0, pt_y = 0, pt_z = 0\<rparr>]"
    by (simp add: bucketOf_def undersized_cells_def idx)
  have "points (m_occupiedCellsVis srv' ! 0) = map fst (bucketOf 1 0 undersized_cells)"
    using ctor_buckets(1) [OF c, of 0] by (simp add: m(1) m(3))
  with b have p: "points (m_occupiedCellsVis srv' ! 0) = [\<lparr>pt_x = 0, pt_y = 0, pt_z = 0\<rparr>]"
    by simp
  from readMap_Inr [OF r] obtain ms where
    "m_occupiedCellsVis srv' ! 0 = readMap_finalize default_server (resolution ?m) 0 (ms ! 0)"
    by auto
  then have "action (m_occupiedCellsVis srv' ! 0) =
               (if 0 < length (points (m_occupiedCellsVis srv' ! 0)) then ADD else DELETE)"
    by (simp add: readMap_finalize_def Let_def)
  then have "action (m_occupiedCellsVis srv' ! 0) = ADD"
    by (simp add: p)
  with r p idx lvl show ?thesis
    by (auto simp add: m)
qed

section \<open>The claims about the emitted markers\<close>

text \<open>
  C3. Whenever \<^verbatim>\<open>readMap\<close> returns, it has emitted exactly sixteen markers, the marker at
  position \<open>i\<close> has the id \<open>i\<close> (ascending level order) and the cube size
  \<open>resolution * 2 ^ i\<close> on all three axes, whether or not it has points; and for a map
  with no occupied voxel \<^verbatim>\<open>readMap\<close> does return.
\<close>

theorem readMap_emits_sixteen_levels:
  "(\<forall>srv'. readMap srv m = Inr srv' \<longrightarrow>
       length (m_occupiedCellsVis srv') = 16
       \<and> (\<forall>i<16. marker_id (m_occupiedCellsVis srv' ! i) = int i
             \<and> scale_x (m_occupiedCellsVis srv' ! i) = resolution m * 2 ^ i
             \<and> scale_y (m_occupiedCellsVis srv' ! i) = resolution m * 2 ^ i
             \<and> scale_z (m_occupiedCellsVis srv' ! i) = resolution m * 2 ^ i))
   \<and> (occupied m = [] \<longrightarrow> (\<exists>srv'. readMap srv m = Inr srv'))"
proof -
  have "length (m_occupiedCellsVis srv') = 16
       \<and> (\<forall>i<16. marker_id (m_occupiedCellsVis srv' ! i) = int i
             \<and> scale_x (m_occupiedCellsVis srv' ! i) = resolution m * 2 ^ i
             \<and> scale_y (m_occupiedCellsVis srv' ! i) = resolution m * 2 ^ i
             \<and> scale_z (m_occupiedCellsVis srv' ! i) = resolution m * 2 ^ i)"
    if "readMap srv m = Inr srv'" for srv'
  proof -
    from readMap_Inr [OF that] obtain ms where
      len: "length (m_occupiedCellsVis srv') = 16" and
      f: "\<forall>i<16. m_occupiedCellsVis srv' ! i = readMap_finalize srv (resolution m) i (ms ! i)"
      by blast
    show ?thesis
      using len f by (simp add: readMap_finalize_def Let_def)
  qed
  moreover have "\<exists>srv'. readMap srv m = Inr srv'" if "occupied m = []"
    using readMap_no_voxels [OF that] by blast
  ultimately show ?thesis
    by blast
qed

theorem readMap_emits_sixteen_levels_witness:
  "occupied (example_map []) = []
   \<and> (\<exists>srv'. readMap default_server (example_map []) = Inr srv'
         \<and> length (m_occupiedCellsVis srv') = 16
         \<and> marker_id (m_occupiedCellsVis srv' ! 3) = 3
         \<and> scale_x (m_occupiedCellsVis srv' ! 3) = 8)
   \<and> (\<exists>srv'. readMap default_server (example_map example_cells) = Inr srv'
         \<and> length (m_occupiedCellsVis srv') = 16
         \<and> marker_id (m_occupiedCellsVis srv' ! 15) = 15
         \<and> scale_z (m_occupiedCellsVis srv' ! 15) = 32768)"
proof -
  note t = readMap_emits_sixteen_levels
  have e: "occupied (example_map []) = []"
    by (simp add: example_map_def)
  with t [of default_server "example_map []"] obtain srv1 where
    r1: "readMap default_server (example_map []) = Inr srv1"
    by blast
  from example_map_succeeds obtain srv2 where
    r2: "readMap default_server (example_map example_cells) = Inr srv2"
    by blast
  have "length (m_occupiedCellsVis srv1) = 16
         \<and> marker_id (m_occupiedCellsVis srv1 ! 3) = 3
         \<and> scale_x (m_occupiedCellsVis srv1 ! 3) = 8"
    using t [of default_server "example_map []", THEN conjunct1, rule_format, OF r1]
    by (simp add: example_map_def)
  moreover have "length (m_occupiedCellsVis srv2) = 16
         \<and> marker_id (m_occupiedCellsVis srv2 ! 15) = 15
         \<and> scale_z (m_occupiedCellsVis srv2 ! 15) = 32768"
    using t [of default_server "example_map example_cells", THEN conjunct1, rule_format, OF r2]
    by (simp add: example_map_def)
  ultimately show ?thesis
    using e r1 r2 by blast
qed

text \<open>
  C8. In the result of \<^verbatim>\<open>readMap\<close> the action of a marker is \<^verbatim>\<open>ADD\<close> exactly when the
  marker has points and \<^verbatim>\<open>DELETE\<close> exactly when it has none. A server constructed on a
  map with no occupied voxel holds sixteen markers, all without points and all with the
  action \<^verbatim>\<open>DELETE\<close>.
\<close>

theorem readMap_action_follows_points:
  "(\<forall>srv'. readMap srv m = Inr srv' \<longrightarrow>
       (\<forall>i<16. (action (m_occupiedCellsVis srv' ! i) = ADD)
                  = (points (m_occupiedCellsVis srv' ! i) \<noteq> [])
              \<and> (action (m_occupiedCellsVis srv' ! i) = DELETE)
                  = (points (m_occupiedCellsVis srv' ! i) = [])))
   \<and> (occupied m = [] \<longrightarrow>
       (\<exists>srv'. OctomapServer_ctor frameId useHeightMap colorFactor col m = Inr srv'
          \<and> length (m_occupiedCellsVis srv') = 16
          \<and> (\<forall>i<16. points (m_occupiedCellsVis srv' ! i) = []
                   \<and> action (m_occupiedCellsVis srv' ! i) = DELETE)))"
proof -
  have flags: "\<forall>i<16. (action (m_occupiedCellsVis srv' ! i) = ADD)
                  = (points (m_occupiedCellsVis srv' ! i) \<noteq> [])
              \<and> (action (m_occupiedCellsVis srv' ! i) = DELETE)
                  = (points (m_occupiedCellsVis srv' ! i) = [])"
    if "readMap srv0 m = Inr srv'" for srv0 srv'
  proof -
    from readMap_Inr [OF that] obtain ms where
      f: "\<forall>i<16. m_occupiedCellsVis srv' ! i = readMap_finalize srv0 (resolution m) i (ms ! i)"
      by blast
    show ?thesis
      using f by (simp add: readMap_finalize_def Let_def)
  qed
  have empty: "\<exists>srv'. OctomapServer_ctor frameId useHeightMap colorFactor col m = Inr srv'
          \<and> length (m_occupiedCellsVis srv') = 16
          \<and> (\<forall>i<16. points (m_occupiedCellsVis srv' ! i) = []
                   \<and> action (m_occupiedCellsVis srv' ! i) = DELETE)"
    if e: "occupied m = []"
  proof -
    let ?srv = "OctomapServer_init frameId useHeightMap colorFactor col"
    from readMap_no_voxels [OF e, of ?srv] obtain srv' where
      r: "readMap ?srv m = Inr srv'"
      by blast
    then have c: "OctomapServer_ctor frameId useHeightMap colorFactor col m = Inr srv'"
      by (simp add: OctomapServer_ctor_def)
    have len: "length (m_occupiedCellsVis srv') = 16"
      using readMap_Inr [OF r] by blast
    have p: "\<forall>i<16. points (m_occupiedCellsVis srv' ! i) = []"
      using ctor_buckets(1) [OF c] by (simp add: e bucketOf_def)
    with flags [OF r] have "\<forall>i<16. points (m_occupiedCellsVis srv' ! i) = []
                   \<and> action (m_occupiedCellsVis srv' ! i) = DELETE"
      by simp
    with c len show ?thesis
      by blast
  qed
  show ?thesis
    using flags [of srv] empty by blast
qed

theorem readMap_action_follows_points_witness:
  "occupied (example_map []) = []
   \<and> (\<exists>srv'. OctomapServer_ctor ''/map'' True (4/5) \<lparr>col_r = 0, col_g = 0, col_b = 1, col_a = 1\<rparr>
               (example_map []) = Inr srv'
         \<and> length (m_occupiedCellsVis srv') = 16
         \<and> action (m_occupiedCellsVis srv' ! 0) = DELETE
         \<and> action (m_occupiedCellsVis srv' ! 15) = DELETE)
   \<and> (\<exists>srv'. readMap default_server (example_map example_cells) = Inr srv'
         \<and> action (m_occupiedCellsVis srv' ! 0) = ADD
         \<and> action (m_occupiedCellsVis srv' ! 2) = ADD
         \<and> action (m_occupiedCellsVis srv' ! 3) = DELETE)"
proof -
  note t = readMap_action_follows_points
  let ?blue = "\<lparr>col_r = 0, col_g = 0, col_b = 1, col_a = 1\<rparr>"
  have e: "occupied (example_map []) = []"
    by (simp add: example_map_def)
  from t [of default_server "example_map []" "''/map''" True "4/5" ?blue,
      THEN conjunct2, rule_format, OF e]
  have one: "\<exists>srv'. OctomapServer_ctor ''/map'' True (4/5) ?blue (example_map []) = Inr srv'
         \<and> length (m_occupiedCellsVis srv') = 16
         \<and> action (m_occupiedCellsVis srv' ! 0) = DELETE
         \<and> action (m_occupiedCellsVis srv' ! 15) = DELETE"
    by auto
  from example_map_succeeds obtain srv2 where
    r2: "readMap default_server (example_map example_cells) = Inr srv2"
    by blast
  then have c2: "OctomapServer_ctor ''/map'' True (4/5) ?blue (example_map example_cells) = Inr srv2"
    by (simp add: OctomapServer_ctor_def default_server_def)
  have p: "points (m_occupiedCellsVis srv2 ! 0) \<noteq> []" "points (m_occupiedCellsVis srv2 ! 2) \<noteq> []"
    "points (m_occupiedCellsVis srv2 ! 3) = []"
    using ctor_buckets(1) [OF c2, of 0] ctor_buckets(1) [OF c2, of 2]
      ctor_buckets(1) [OF c2, of 3]
    by (simp_all add: example_map_def example_buckets)
  have "action (m_occupiedCellsVis srv2 ! 0) = ADD
         \<and> action (m_occupiedCellsVis srv2 ! 2) = ADD
         \<and> action (m_occupiedCellsVis srv2 ! 3) = DELETE"
    using t [of default_server "example_map example_cells", THEN conjunct1, rule_format, OF r2]
      p
    by simp
  with r2 have two: "\<exists>srv'. readMap default_server (example_map example_cells) = Inr srv'
         \<and> action (m_occupiedCellsVis srv' ! 0) = ADD
         \<and> action (m_occupiedCellsVis srv' ! 2) = ADD
         \<and> action (m_occupiedCellsVis srv' ! 3) = DELETE"
    by blast
  show ?thesis
    using e one two by blast
qed

section \<open>The claims about height colouring\<close>

lemma heightMapColor_examples:
  "heightMapColor (4/5) = \<lparr>col_r = 4/5, col_g = 0, col_b = 1, col_a = 1\<rparr>"
  "heightMapColor 0 = \<lparr>col_r = 1, col_g = 0, col_b = 0, col_a = 1\<rparr>"
  "heightMapColor (2/5) = \<lparr>col_r = 0, col_g = 1, col_b = 2/5, col_a = 1\<rparr>"
  "heightMapColor (16/25) = \<lparr>col_r = 0, col_g = 4/25, col_b = 1, col_a = 1\<rparr>"
  by (simp_all add: heightMapColor_def colorSwitch_def Let_def)

lemma hFraction_spec_examples:
  "hFraction_spec 0 0 10 (4/5) = 4/5" "hFraction_spec 10 0 10 (4/5) = 0"
  "hFraction_spec 5 0 10 (4/5) = 2/5" "hFraction_spec 2 0 10 (4/5) = 16/25"
  by (simp_all add: hFraction_spec_def clamp_spec_def)

text \<open>
  C5. With height colouring on, every state the loop reaches from the markers of a new
  server (after any list of voxels it has stored) and the finished result have this
  property: the points and the colours of each of the sixteen markers have the same
  length, and they are the centres and the colours of one and the same list of input
  voxels, those of the level of the marker in input order, so that the point and the
  colour at a position come from the same voxel. A build that returns has passed through
  such a state after every prefix of the occupied voxels.
\<close>

theorem points_and_colors_stay_parallel:
  "(\<forall>xs mid. readMap_loop (OctomapServer_init frameId True colorFactor col) (resolution m)
                 (pt_z (metricMin m)) (pt_z (metricMax m)) (resize_markers 16 []) xs = Inr mid
        \<longrightarrow> length mid = 16
            \<and> (\<forall>k<16. length (points (mid ! k)) = length (colors (mid ! k))
                  \<and> points (mid ! k) = map fst (bucketOf (resolution m) k xs)
                  \<and> colors (mid ! k) =
                      map (voxelColor (OctomapServer_init frameId True colorFactor col)
                             (pt_z (metricMin m)) (pt_z (metricMax m)))
                        (bucketOf (resolution m) k xs)))
   \<and> (\<forall>srv'. OctomapServer_ctor frameId True colorFactor col m = Inr srv' \<longrightarrow>
        (\<forall>xs ys. occupied m = xs @ ys \<longrightarrow>
           (\<exists>mid. readMap_loop (OctomapServer_init frameId True colorFactor col) (resolution m)
                 (pt_z (metricMin m)) (pt_z (metricMax m)) (resize_markers 16 []) xs = Inr mid))
        \<and> (\<forall>k<16. length (points (m_occupiedCellsVis srv' ! k))
                      = length (colors (m_occupiedCellsVis srv' ! k))
              \<and> points (m_occupiedCellsVis srv' ! k)
                  = map fst (bucketOf (resolution m) k (occupied m))
              \<and> colors (m_occupiedCellsVis srv' ! k) =
                  map (voxelColor (OctomapServer_init frameId True colorFactor col)
                         (pt_z (metricMin m)) (pt_z (metricMax m)))
                    (bucketOf (resolution m) k (occupied m))))"
proof -
  let ?srv = "OctomapServer_init frameId True colorFactor col"
  let ?minZ = "pt_z (metricMin m)" and ?maxZ = "pt_z (metricMax m)"
  have srv: "m_occupiedCellsVis ?srv = []" "m_useHeightMap ?srv"
    by (simp_all add: OctomapServer_init_def)
  have mid: "length mid = 16
        \<and> (\<forall>k<16. length (points (mid ! k)) = length (colors (mid ! k))
              \<and> points (mid ! k) = map fst (bucketOf (resolution m) k xs)
              \<and> colors (mid ! k) =
                  map (voxelColor ?srv ?minZ ?maxZ) (bucketOf (resolution m) k xs))"
    if l: "readMap_loop ?srv (resolution m) ?minZ ?maxZ (resize_markers 16 []) xs = Inr mid"
    for xs mid
    using readMap_loop_Inr [OF l]
    by (simp add: resize_markers_length resize_markers_fresh appendVoxels_def
        Marker_default_def srv)
  have passes: "\<exists>mid. readMap_loop ?srv (resolution m) ?minZ ?maxZ (resize_markers 16 []) xs
                  = Inr mid"
    if c: "OctomapServer_ctor frameId True colorFactor col m = Inr srv'"
      and occ: "occupied m = xs @ ys"
    for srv' xs ys
  proof -
    from c have "readMap ?srv m = Inr srv'"
      by (simp add: OctomapServer_ctor_def)
    from readMap_Inr [OF this] obtain ms where
      "readMap_loop ?srv (resolution m) ?minZ ?maxZ (resize_markers 16 []) (xs @ ys) = Inr ms"
      by (auto simp add: srv occ)
    then show ?thesis
      by (auto simp add: readMap_loop_append split: sum.splits)
  qed
  have fin: "\<forall>k<16. length (points (m_occupiedCellsVis srv' ! k))
                  = length (colors (m_occupiedCellsVis srv' ! k))
        \<and> points (m_occupiedCellsVis srv' ! k) = map fst (bucketOf (resolution m) k (occupied m))
        \<and> colors (m_occupiedCellsVis srv' ! k) =
            map (voxelColor ?srv ?minZ ?maxZ) (bucketOf (resolution m) k (occupied m))"
    if c: "OctomapServer_ctor frameId True colorFactor col m = Inr srv'" for srv'
    using ctor_buckets [OF c] by simp
  show ?thesis
    using mid passes fin by blast
qed

theorem points_and_colors_stay_parallel_witness:
  "occupied (example_map example_cells) = take 2 example_cells @ drop 2 example_cells
   \<and> (\<exists>srv'. OctomapServer_ctor ''/map'' True (4/5) \<lparr>col_r = 0, col_g = 0, col_b = 1, col_a = 1\<rparr>
               (example_map example_cells) = Inr srv'
         \<and> points (m_occupiedCellsVis srv' ! 0) =
             [\<lparr>pt_x = 0, pt_y = 0, pt_z = 0\<rparr>, \<lparr>pt_x = 1, pt_y = 0, pt_z = 10\<rparr>]
         \<and> colors (m_occupiedCellsVis srv' ! 0) =
             [\<lparr>col_r = 4/5, col_g = 0, col_b = 1, col_a = 1\<rparr>,
              \<lparr>col_r = 1, col_g = 0, col_b = 0, col_a = 1\<rparr>]
         \<and> points (m_occupiedCellsVis srv' ! 2) = [\<lparr>pt_x = 0, pt_y = 0, pt_z = 2\<rparr>]
         \<and> colors (m_occupiedCellsVis srv' ! 2) =
             [\<lparr>col_r = 0, col_g = 4/25, col_b = 1, col_a = 1\<rparr>])
   \<and> (\<exists>mid. readMap_loop default_server 1 0 10 (resize_markers 16 []) (take 2 example_cells)
               = Inr mid
         \<and> length (points (mid ! 0)) = 2 \<and> length (colors (mid ! 0)) = 2
         \<and> points (mid ! 2) = [] \<and> colors (mid ! 2) = [])"
proof -
  let ?blue = "\<lparr>col_r = 0, col_g = 0, col_b = 1, col_a = 1\<rparr>"
  let ?m = "example_map example_cells"
  have split: "occupied ?m = take 2 example_cells @ drop 2 example_cells"
    by (simp add: example_map_def)
  from example_map_succeeds obtain srv' where
    c: "OctomapServer_ctor ''/map'' True (4/5) ?blue ?m = Inr srv'"
    by (auto simp add: OctomapServer_ctor_def default_server_def)
  note t0 = points_and_colors_stay_parallel [of "''/map''" "4/5" ?blue ?m]
  note t = t0 [THEN conjunct2, rule_format, OF c]
  have m: "resolution ?m = 1" "pt_z (metricMin ?m) = 0" "pt_z (metricMax ?m) = 10"
    "occupied ?m = example_cells"
    by (simp_all add: example_map_def)
  have col: "m_colorFactor (OctomapServer_init ''/map'' True (4/5) ?blue) = 4/5"
    by (simp add: OctomapServer_init_def)
  have fin: "points (m_occupiedCellsVis srv' ! 0) =
             [\<lparr>pt_x = 0, pt_y = 0, pt_z = 0\<rparr>, \<lparr>pt_x = 1, pt_y = 0, pt_z = 10\<rparr>]
         \<and> colors (m_occupiedCellsVis srv' ! 0) =
             [\<lparr>col_r = 4/5, col_g = 0, col_b = 1, col_a = 1\<rparr>,
              \<lparr>col_r = 1, col_g = 0, col_b = 0, col_a = 1\<rparr>]
         \<and> points (m_occupiedCellsVis srv' ! 2) = [\<lparr>pt_x = 0, pt_y = 0, pt_z = 2\<rparr>]
         \<and> colors (m_occupiedCellsVis srv' ! 2) =
             [\<lparr>col_r = 0, col_g = 4/25, col_b = 1, col_a = 1\<rparr>]"
    using t [THEN conjunct2, rule_format, of 0] t [THEN conjunct2, rule_format, of 2]
    by (simp add: m example_buckets voxelColor_def col hFraction_spec_examples
        heightMapColor_examples)
  from t [THEN conjunct1, rule_format, OF split] obtain mid where
    l: "readMap_loop default_server 1 0 10 (resize_markers 16 []) (take 2 example_cells) = Inr mid"
    by (auto simp add: m default_server_def)
  have k: "\<forall>k<16. length (points (mid ! k)) = length (colors (mid ! k))
                  \<and> points (mid ! k) = map fst (bucketOf 1 k (take 2 example_cells))
                  \<and> colors (mid ! k) =
                      map (voxelColor default_server 0 10) (bucketOf 1 k (take 2 example_cells))"
    using t0 [THEN conjunct1, rule_format, of "take 2 example_cells" mid] l
    by (simp add: m default_server_def)
  have "length (points (mid ! 0)) = 2 \<and> length (colors (mid ! 0)) = 2
         \<and> points (mid ! 2) = [] \<and> colors (mid ! 2) = []"
    using k [rule_format, of 0] k [rule_format, of 2]
    by (simp add: example_cells_def bucketOf_def voxelIndex_examples)
  with l fin c split show ?thesis
    by blast
qed

text \<open>
  C6. With bounds that are not degenerate the fraction the builder computes,
  \<^verbatim>\<open>(1.0 - std::min(std::max((z - minZ) / (maxZ - minZ), 0.0), 1.0)) * m_colorFactor\<close>,
  is \<open>(1 - clamp ((z - zMin) / (zMax - zMin)) 0 1) * colorFactor\<close>, and with height
  colouring on the colour appended for a voxel is the colour mapping at this fraction of
  the height of its centre. For \<open>zMin = 0\<close>, \<open>zMax = 10\<close> and the colour factor 0.8 the
  fraction is 0.8 at \<open>z = 0\<close> and 0 at \<open>z = 10\<close>, and the two colours, (0.8, 0, 1, 1) and
  (1, 0, 0, 1), differ.
\<close>

theorem height_fraction_of_a_voxel:
  "(minZ \<noteq> maxZ \<longrightarrow>
      heightFraction z minZ maxZ colorFactor = Some (hFraction_spec z minZ maxZ colorFactor))
   \<and> (m_useHeightMap srv \<and> minZ \<noteq> maxZ \<and> k < length ms \<longrightarrow>
        (\<exists>ms'. storeColor srv minZ maxZ vol k ms = Inr ms'
           \<and> colors (ms' ! k) = colors (ms ! k) @
               [heightMapColor (hFraction_spec (pt_z (fst vol)) minZ maxZ (m_colorFactor srv))]))
   \<and> heightFraction 0 0 10 (8/10) = Some (8/10)
   \<and> heightFraction 10 0 10 (8/10) = Some 0
   \<and> heightMapColor (8/10) = \<lparr>col_r = 8/10, col_g = 0, col_b = 1, col_a = 1\<rparr>
   \<and> heightMapColor 0 = \<lparr>col_r = 1, col_g = 0, col_b = 0, col_a = 1\<rparr>
   \<and> heightMapColor (8/10) \<noteq> heightMapColor 0"
proof -
  have a: "heightFraction z minZ maxZ colorFactor = Some (hFraction_spec z minZ maxZ colorFactor)"
    if "minZ \<noteq> maxZ"
    using heightFraction_eq_spec [OF that] .
  have b: "\<exists>ms'. storeColor srv minZ maxZ vol k ms = Inr ms'
           \<and> colors (ms' ! k) = colors (ms ! k) @
               [heightMapColor (hFraction_spec (pt_z (fst vol)) minZ maxZ (m_colorFactor srv))]"
    if "m_useHeightMap srv" "minZ \<noteq> maxZ" "k < length ms"
    using that by (simp add: storeColor_def heightFraction_eq_spec)
  have c: "heightFraction 0 0 10 (8/10) = Some (8/10)" "heightFraction 10 0 10 (8/10) = Some 0"
    by (simp_all add: heightFraction_def)
  have d: "heightMapColor (8/10) = \<lparr>col_r = 8/10, col_g = 0, col_b = 1, col_a = 1\<rparr>"
    "heightMapColor 0 = \<lparr>col_r = 1, col_g = 0, col_b = 0, col_a = 1\<rparr>"
    by (simp_all add: heightMapColor_def colorSwitch_def Let_def)
  have e: "heightMapColor (8/10) \<noteq> heightMapColor 0"
    unfolding d by simp
  show ?thesis
    using a b c d e by blast
qed

theorem height_fraction_of_a_voxel_witness:
  "(0::real) \<noteq> 10 \<and> m_useHeightMap default_server \<and> (0::nat) < length (resize_markers 16 [])
   \<and> heightFraction 5 0 10 (4/5) = Some (2/5)
   \<and> (\<exists>ms'. storeColor default_server 0 10 (\<lparr>pt_x = 2, pt_y = 2, pt_z = 5\<rparr>, 1) 0
               (resize_markers 16 []) = Inr ms'
         \<and> colors (ms' ! 0) = [\<lparr>col_r = 0, col_g = 1, col_b = 2/5, col_a = 1\<rparr>])"
proof -
  let ?vol = "(\<lparr>pt_x = 2, pt_y = 2, pt_z = 5\<rparr>, 1::real)"
  have h: "(0::real) \<noteq> 10" "m_useHeightMap default_server"
    "(0::nat) < length (resize_markers 16 [])"
    by (simp_all add: default_server_def OctomapServer_init_def resize_markers_length)
  note t = height_fraction_of_a_voxel [of 0 10 _ _ default_server 0 "resize_markers 16 []" ?vol]
  have "heightFraction 5 0 10 (4/5) = Some (hFraction_spec 5 0 10 (4/5))"
    using t [of 5 "4/5", THEN conjunct1] h by blast
  then have a: "heightFraction 5 0 10 (4/5) = Some (2/5)"
    by (simp add: hFraction_spec_examples)
  have "\<exists>ms'. storeColor default_server 0 10 ?vol 0 (resize_markers 16 []) = Inr ms'
           \<and> colors (ms' ! 0) = colors (resize_markers 16 [] ! 0) @
               [heightMapColor (hFraction_spec (pt_z (fst ?vol)) 0 10 (m_colorFactor default_server))]"
    using t [of 0 0, THEN conjunct2, THEN conjunct1] h by blast
  then have "\<exists>ms'. storeColor default_server 0 10 ?vol 0 (resize_markers 16 []) = Inr ms'
         \<and> colors (ms' ! 0) = [\<lparr>col_r = 0, col_g = 1, col_b = 2/5, col_a = 1\<rparr>]"
    by (simp add: resize_markers_fresh Marker_default_def default_server_def
        OctomapServer_init_def hFraction_spec_examples heightMapColor_examples)
  with h a show ?thesis
    by blast
qed

end
